theory Spec2Isabelle
  imports Main "HOL-Library.AList" "HOL-Library.List_Lexorder" "HOL-Library.Char_ord"
    "HOL-Library.Word"
begin

section \<open>Python values, strings and formatting\<close>

text \<open>
  The module \<^verbatim>\<open>imager.py\<close> works on integers, strings, byte strings and lists.
  Python integers are unbounded (\<^typ>\<open>int\<close>), strings are character lists, and every
  exception the code can raise is a value of \<open>error\<close>; a function that may raise returns
  \<open>error + 'a\<close> with \<open>Inl\<close> for the exception.
\<close>

datatype error =
    NameError
  | InvalidFilterValue
  | FileNotFoundError
  | ValueError
  | IndexError
  | DatabaseError
  | DateTimeError

type_synonym bytes = "8 word list"

text \<open>\<^verbatim>\<open>str(n)\<close> for a non-negative integer: its decimal digits, most significant first.\<close>

definition digit_char :: "nat \<Rightarrow> char" where
  "digit_char d = char_of (48 + d)"

fun str_nat :: "nat \<Rightarrow> string" where
  "str_nat n = (if n < 10 then [digit_char n] else str_nat (n div 10) @ [digit_char (n mod 10)])"

declare str_nat.simps [simp del]

text \<open>\<^verbatim>\<open>str(i)\<close>, which is also \<^verbatim>\<open>"%i" % i\<close> and \<^verbatim>\<open>f"{i}"\<close>, for an integer.\<close>

definition str_int :: "int \<Rightarrow> string" where
  "str_int i = (if i < 0 then CHR ''-'' # str_nat (nat (- i)) else str_nat (nat i))"

text \<open>
  \<^verbatim>\<open>"%05d" % i\<close>: the sign, then zeros up to a total width of five, then the digits.
  A number that needs more than five characters is printed in full.
\<close>

definition fmt_05d :: "int \<Rightarrow> string" where
  "fmt_05d i =
     (let sign = (if i < 0 then ''-'' else '''');
          ds = str_nat (nat \<bar>i\<bar>)
      in sign @ replicate (5 - (length sign + length ds)) CHR ''0'' @ ds)"

text \<open>\<^verbatim>\<open>sep.join(xs)\<close>.\<close>

fun str_join :: "string \<Rightarrow> string list \<Rightarrow> string" where
  "str_join sep [] = []"
| "str_join sep [x] = x"
| "str_join sep (x # y # ys) = x @ sep @ str_join sep (y # ys)"

text \<open>
  \<^verbatim>\<open>s.replace(old, new)\<close> for a non-empty \<open>old\<close>: the occurrences of \<open>old\<close> are
  replaced from left to right, without overlap. (The module only calls it with
  \<^verbatim>\<open>"_raw"\<close>; for an empty \<open>old\<close> Python inserts \<open>new\<close> around every character,
  which this function does not model and returns the string unchanged.)
\<close>

function str_replace :: "string \<Rightarrow> string \<Rightarrow> string \<Rightarrow> string" where
  "str_replace old new [] = []"
| "str_replace old new (c # cs) =
     (if old \<noteq> [] \<and> take (length old) (c # cs) = old
      then new @ str_replace old new (drop (length old) (c # cs))
      else c # str_replace old new cs)"
  by pat_completeness auto
termination
  by (relation "measure (\<lambda>(old, new, s). length s)") (auto simp: neq_Nil_conv)

section \<open>The criteria builder\<close>

text \<open>
  The values a caller can pass as a filter: an integer, a list (of integers, or of
  anything else that \<^verbatim>\<open>str\<close> accepts, here strings), or something that is neither,
  here a string. \<^verbatim>\<open>None\<close> is the \<open>None\<close> of \<^typ>\<open>'a option\<close>.
\<close>

datatype elem = EInt int | EStr string

datatype pyvalue = VInt int | VStr string | VList "elem list"

fun str_elem :: "elem \<Rightarrow> string" where
  "str_elem (EInt i) = str_int i"
| "str_elem (EStr s) = s"

text \<open>
  The names bound at module level (imports, the constant \<^verbatim>\<open>ANNOTATE\<close>, the classes and
  \<^verbatim>\<open>main\<close>) and the builtins the module uses. Evaluating any other global name raises
  \<^verbatim>\<open>NameError\<close>.
\<close>

definition module_globals :: "string list" where
  "module_globals =
     [''os'', ''shutil'', ''io'', ''glob'', ''datetime'', ''Union'', ''List'', ''sqlite3'',
      ''Pool'', ''ANNOTATE'', ''ImageExtractor'', ''Annotator'', ''VideoMaker'',
      ''EthoscopeImager'', ''main'']"

definition builtin_names :: "string list" where
  "builtin_names =
     [''isinstance'', ''str'', ''int'', ''float'', ''open'', ''enumerate'', ''Exception'',
      ''print'', ''vars'']"

definition name_is_bound :: "string \<Rightarrow> bool" where
  "name_is_bound n = (n \<in> set module_globals \<or> n \<in> set builtin_names)"

text \<open>
  \<^verbatim>\<open>isinstance(value, Integer)\<close>: the name \<^verbatim>\<open>Integer\<close> is looked up first. Were it
  bound to the integer type, the test would hold of integers only.
\<close>

definition isinstance_Integer :: "pyvalue \<Rightarrow> error + bool" where
  "isinstance_Integer v =
     (if name_is_bound ''Integer''
      then Inr (case v of VInt _ \<Rightarrow> True | _ \<Rightarrow> False)
      else Inl NameError)"

text \<open>
  \<^verbatim>\<open>ImageExtractor.make_criteria\<close>: a list gives a membership predicate over the
  \<^verbatim>\<open>str\<close> of its elements; otherwise the \<^verbatim>\<open>elif\<close> test is evaluated, and only when it
  returns is the equality predicate or the final \<^verbatim>\<open>raise\<close> reached.
\<close>

definition make_criteria :: "string \<Rightarrow> pyvalue \<Rightarrow> error + string" where
  "make_criteria column v =
     (case v of
        VList es \<Rightarrow> Inr (column @ '' in ('' @ str_join '','' (map str_elem es) @ '')'')
      | _ \<Rightarrow>
          (case isinstance_Integer v of
             Inl e \<Rightarrow> Inl e
           | Inr True \<Rightarrow>
               (case v of VInt i \<Rightarrow> Inr (column @ '' = '' @ str_int i)
                        | _ \<Rightarrow> Inl InvalidFilterValue)
           | Inr False \<Rightarrow> Inl InvalidFilterValue))"

text \<open>
  \<^verbatim>\<open>EthoscopeImager.get_criteria(id, t)\<close>. Both calls of \<^verbatim>\<open>make_criteria\<close> come first
  and either may raise. With both filters present the result is the string literal of
  the source, which is not an f-string; the method has no \<^verbatim>\<open>flag\<close> parameter.
\<close>

definition get_criteria :: "pyvalue option \<Rightarrow> pyvalue option \<Rightarrow> error + string option" where
  "get_criteria idv tv =
     (case (case idv of None \<Rightarrow> Inr None
                      | Some v \<Rightarrow> map_sum (\<lambda>e. e) Some (make_criteria ''id'' v)) of
        Inl e \<Rightarrow> Inl e
      | Inr id_criteria \<Rightarrow>
          (case (case tv of None \<Rightarrow> Inr None
                          | Some v \<Rightarrow> map_sum (\<lambda>e. e) Some (make_criteria ''t'' v)) of
             Inl e \<Rightarrow> Inl e
           | Inr t_criteria \<Rightarrow>
               if idv = None \<and> tv = None then Inr None
               else if idv \<noteq> None \<and> tv \<noteq> None
                 then Inr (Some ''{id_criteria} {flag} {t_criteria}'')
               else if idv = None \<and> tv \<noteq> None then Inr t_criteria
               else Inr id_criteria))"

section \<open>The file system, the archive and the external programs\<close>

text \<open>
  The snapshot files are an association list from path to content, in directory order;
  a path is present when it has an entry. The archive is read-only and separate from
  it. What the module does not compute itself is a parameter: \<^verbatim>\<open>float\<close> on a text
  value, the formatted local date-time of \<^verbatim>\<open>time / 1000 + t0\<close>, the shell run by
  \<^verbatim>\<open>os.system\<close> (a command and the files before give an exit status and the files
  after), the rows sqlite returns for the metadata query and for a snapshot query, and
  what \<^verbatim>\<open>glob.glob\<close> returns for a pattern whose directory part is empty or is itself a
  pattern (\<open>glob_other\<close>).
\<close>

type_synonym filesystem = "(string \<times> bytes) list"

definition path_exists :: "string \<Rightarrow> filesystem \<Rightarrow> bool" where
  "path_exists p fs = (map_of fs p \<noteq> None)"

definition write_file :: "string \<Rightarrow> bytes \<Rightarrow> filesystem \<Rightarrow> filesystem" where
  "write_file p b fs = AList.update p b fs"

definition remove_file :: "string \<Rightarrow> filesystem \<Rightarrow> filesystem" where
  "remove_file p fs = AList.delete p fs"

text \<open>A Python number as \<^verbatim>\<open>get_t0\<close> returns it: the integer literal or a float.\<close>

datatype 'f pynum = PyInt int | PyFloat 'f

record 'f externals =
  py_float :: "string \<Rightarrow> error + 'f"
  label_of :: "'f pynum \<Rightarrow> int \<Rightarrow> error + string"
  os_system :: "string \<Rightarrow> filesystem \<Rightarrow> int \<times> filesystem"
  metadata_rows :: "error + (string \<times> string) list"
  snapshot_rows :: "string \<Rightarrow> error + (int \<times> int \<times> bytes) list"
  glob_other :: "string \<Rightarrow> filesystem \<Rightarrow> string list"

text \<open>
  The state the methods change: the files, and the record of what was handed to the
  shell and to sqlite, in order.
\<close>

record state =
  files :: filesystem
  commands :: "string list"
  statements :: "string list"

text \<open>\<^verbatim>\<open>os.path.join\<close>, \<^verbatim>\<open>os.path.basename\<close> and \<^verbatim>\<open>os.path.dirname\<close> (posix).\<close>

definition path_join2 :: "string \<Rightarrow> string \<Rightarrow> string" where
  "path_join2 a b =
     (if b \<noteq> [] \<and> hd b = CHR ''/'' then b
      else if a = [] \<or> last a = CHR ''/'' then a @ b
      else a @ ''/'' @ b)"

definition path_join :: "string \<Rightarrow> string list \<Rightarrow> string" where
  "path_join a ps = foldl path_join2 a ps"

definition basename :: "string \<Rightarrow> string" where
  "basename p = rev (takeWhile (\<lambda>c. c \<noteq> CHR ''/'') (rev p))"

definition dirname :: "string \<Rightarrow> string" where
  "dirname p =
     (let head = rev (dropWhile (\<lambda>c. c \<noteq> CHR ''/'') (rev p))
      in if head \<noteq> [] \<and> head \<noteq> replicate (length head) CHR ''/''
         then rev (dropWhile (\<lambda>c. c = CHR ''/'') (rev head))
         else head)"

section \<open>ImageExtractor\<close>

record 'f imager =
  path :: string
  filename :: string
  experiment_folder :: string
  img_snapshots :: string
  t0 :: "'f pynum"

text \<open>
  \<^verbatim>\<open>get_t0\<close>: the loop over the rows of \<^verbatim>\<open>METADATA\<close>, starting from the integer 0;
  every row whose field is \<^verbatim>\<open>date_time\<close> overwrites \<open>t0\<close> with \<^verbatim>\<open>float(value)\<close>,
  which may raise.
\<close>

fun t0_loop :: "(string \<Rightarrow> error + 'f) \<Rightarrow> 'f pynum \<Rightarrow> (string \<times> string) list \<Rightarrow> error + 'f pynum" where
  "t0_loop fl acc [] = Inr acc"
| "t0_loop fl acc ((field, v) # rows) =
     (if field = ''date_time''
      then (case fl v of Inl e \<Rightarrow> Inl e | Inr x \<Rightarrow> t0_loop fl (PyFloat x) rows)
      else t0_loop fl acc rows)"

definition get_t0 :: "'f externals \<Rightarrow> error + 'f pynum" where
  "get_t0 ext =
     (case metadata_rows ext of
        Inl e \<Rightarrow> Inl e
      | Inr rows \<Rightarrow> t0_loop (py_float ext) (PyInt 0) rows)"

text \<open>\<^verbatim>\<open>__init__\<close>; \<^verbatim>\<open>os.makedirs\<close> has nothing to do in a flat file system.\<close>

definition init :: "'f externals \<Rightarrow> string \<Rightarrow> error + 'f imager" where
  "init ext p =
     (case get_t0 ext of
        Inl e \<Rightarrow> Inl e
      | Inr t \<Rightarrow>
          Inr \<lparr>path = p, filename = basename p, experiment_folder = dirname p,
               img_snapshots = path_join (dirname p) [''IMG_SNAPSHOTS''], t0 = t\<rparr>)"

text \<open>
  \<^verbatim>\<open>list_snapshots\<close> is \<^verbatim>\<open>glob.glob(os.path.join(self.img_snapshots, "*.jpg"))\<close>.
  \<^verbatim>\<open>glob\<close> splits the pattern into its directory part and \<^verbatim>\<open>*.jpg\<close>. A directory part
  without metacharacter is taken as it is: its entries are listed, the names starting
  with a dot dropped, the names ending in \<^verbatim>\<open>.jpg\<close> kept and joined to the directory.
  A directory part with a metacharacter (\<^verbatim>\<open>*\<close>, \<^verbatim>\<open>?\<close>, \<^verbatim>\<open>[\<close>) is expanded as a pattern
  first, and an empty one stands for the working directory: both are left to
  \<open>glob_other\<close>.
\<close>

definition has_magic :: "string \<Rightarrow> bool" where
  "has_magic s = (CHR ''*'' \<in> set s \<or> CHR ''?'' \<in> set s \<or> CHR ''['' \<in> set s)"

definition ends_with :: "string \<Rightarrow> string \<Rightarrow> bool" where
  "ends_with suf s = (length suf \<le> length s \<and> drop (length s - length suf) s = suf)"

text \<open>
  \<^verbatim>\<open>os.listdir(d)\<close> on the association list: the names directly under \<open>d\<close>, those of
  the files there and of the directories some file lies under, each once.
\<close>

definition listdir :: "string \<Rightarrow> filesystem \<Rightarrow> string list" where
  "listdir d fs =
     (let pre = (if d \<noteq> [] \<and> last d = CHR ''/'' then d else d @ ''/'')
      in remdups (filter (\<lambda>n. n \<noteq> [])
           (map (\<lambda>p. takeWhile (\<lambda>c. c \<noteq> CHR ''/'') (drop (length pre) p))
                (filter (\<lambda>p. take (length pre) p = pre) (map fst fs)))))"

definition glob1_jpg :: "string list \<Rightarrow> string list" where
  "glob1_jpg names = filter (\<lambda>n. n \<noteq> [] \<and> hd n \<noteq> CHR ''.'' \<and> ends_with ''.jpg'' n) names"

definition list_snapshots :: "'f externals \<Rightarrow> 'f imager \<Rightarrow> filesystem \<Rightarrow> string list" where
  "list_snapshots ext self fs =
     (let pathname = path_join (img_snapshots self) [''*.jpg''];
          d = dirname pathname
      in if d = [] \<or> has_magic d then glob_other ext pathname fs
         else map (\<lambda>n. path_join d [n]) (glob1_jpg (listdir d fs)))"

text \<open>The two file names \<^verbatim>\<open>save_frame\<close> derives from \<open>(id, t)\<close>.\<close>

definition file_name_raw :: "string \<Rightarrow> int \<Rightarrow> int \<Rightarrow> string" where
  "file_name_raw folder i t =
     path_join folder [''IMG_SNAPSHOTS'', fmt_05d i @ ''_'' @ str_int t @ ''_raw.jpg'']"

definition file_name :: "string \<Rightarrow> int \<Rightarrow> int \<Rightarrow> string" where
  "file_name folder i t =
     path_join folder [''IMG_SNAPSHOTS'', fmt_05d i @ ''_'' @ str_int t @ ''.jpg'']"

text \<open>
  \<^verbatim>\<open>save_frame\<close>: returns the raw path in every case; the blob is written to it only
  when neither file is there.
\<close>

definition save_frame :: "'f imager \<Rightarrow> int \<Rightarrow> int \<Rightarrow> bytes \<Rightarrow> state \<Rightarrow> string \<times> state" where
  "save_frame self i t blob st =
     (let raw = file_name_raw (experiment_folder self) i t;
          lab = file_name (experiment_folder self) i t
      in if path_exists lab (files st) \<or> path_exists raw (files st) then (raw, st)
         else (raw, st\<lparr>files := write_file raw blob (files st)\<rparr>))"

text \<open>The loop of \<^verbatim>\<open>get_frame\<close> over the rows of the cursor.\<close>

fun save_frames :: "'f imager \<Rightarrow> (int \<times> int \<times> bytes) list \<Rightarrow> state \<Rightarrow> string list \<times> state" where
  "save_frames self [] st = ([], st)"
| "save_frames self ((i, t, blob) # rows) st =
     (let (f, st1) = save_frame self i t blob st;
          (fs, st2) = save_frames self rows st1
      in (f # fs, st2))"

text \<open>
  \<^verbatim>\<open>get_frame\<close>: \<^verbatim>\<open>None\<close> for the criteria \<^verbatim>\<open>None\<close>, before any connection is made;
  otherwise the statement is executed and every row saved.
\<close>

definition get_frame ::
  "'f externals \<Rightarrow> 'f imager \<Rightarrow> string option \<Rightarrow> state \<Rightarrow> (error + string list option) \<times> state" where
  "get_frame ext self criteria st =
     (case criteria of
        None \<Rightarrow> (Inr None, st)
      | Some c \<Rightarrow>
          (let statement = ''SELECT id, t, img FROM IMG_SNAPSHOTS WHERE '' @ c;
               st1 = st\<lparr>statements := statements st @ [statement]\<rparr>
           in case snapshot_rows ext statement of
                Inl e \<Rightarrow> (Inl e, st1)
              | Inr rows \<Rightarrow>
                  (let (fs, st2) = save_frames self rows st1 in (Inr (Some fs), st2))))"

section \<open>Annotator\<close>

text \<open>\<^verbatim>\<open>s.split(sep)\<close> for a one-character separator: never the empty list.\<close>

fun split_on :: "char \<Rightarrow> string \<Rightarrow> string list" where
  "split_on sep [] = [[]]"
| "split_on sep (c # cs) =
     (if c = sep then [] # split_on sep cs
      else (case split_on sep cs of w # ws \<Rightarrow> (c # w) # ws | [] \<Rightarrow> [[c]]))"

text \<open>
  \<^verbatim>\<open>int(s)\<close> on a string: surrounding white space, an optional sign, then decimal
  digits and nothing else (the strings parsed here come out of a split at underscores,
  so Python's digit-group underscores cannot occur).
\<close>

definition is_digit :: "char \<Rightarrow> bool" where
  "is_digit c = (48 \<le> (of_char c :: nat) \<and> (of_char c :: nat) \<le> 57)"

definition is_space :: "char \<Rightarrow> bool" where
  "is_space c = ((of_char c :: nat) = 32 \<or> (9 \<le> (of_char c :: nat) \<and> (of_char c :: nat) \<le> 13))"

definition digits_value :: "string \<Rightarrow> nat" where
  "digits_value ds = foldl (\<lambda>a c. 10 * a + (of_char c - 48)) 0 ds"

definition strip :: "string \<Rightarrow> string" where
  "strip s = rev (dropWhile is_space (rev (dropWhile is_space s)))"

definition int_of_str :: "string \<Rightarrow> error + int" where
  "int_of_str s =
     (let s1 = strip s;
          neg = (s1 \<noteq> [] \<and> hd s1 = CHR ''-'');
          ds = (if s1 \<noteq> [] \<and> (hd s1 = CHR ''-'' \<or> hd s1 = CHR ''+'') then tl s1 else s1)
      in if ds \<noteq> [] \<and> list_all is_digit ds
         then Inr (if neg then - int (digits_value ds) else int (digits_value ds))
         else Inl ValueError)"

text \<open>
  \<^verbatim>\<open>make_pool\<close>: the time of each file is parsed out of its base name,
  \<^verbatim>\<open>int(basename(f).split("_")[1].split(".")[0])\<close>. Only the argument list is
  modelled here; the pool is in \<open>annotate\<close>.
\<close>

definition frame_time :: "string \<Rightarrow> error + int" where
  "frame_time f =
     (case split_on CHR ''_'' (basename f) of
        _ # p # _ \<Rightarrow> (case split_on CHR ''.'' p of q # _ \<Rightarrow> int_of_str q | [] \<Rightarrow> Inl IndexError)
      | _ \<Rightarrow> Inl IndexError)"


definition convert_command :: "string \<Rightarrow> string \<Rightarrow> string \<Rightarrow> string" where
  "convert_command f label out =
     ''convert '' @ f @ '' -pointsize 50  -font FreeMono -background Khaki  label:'' @
     [CHR 0x27] @ label @ [CHR 0x27] @ '' +swap -gravity Center -append '' @ out"

text \<open>
  \<^verbatim>\<open>annotate_image\<close>: the label is computed first (and may raise); if the output path
  exists the method returns at once; otherwise the command is handed to the shell, its
  exit status is dropped, and \<^verbatim>\<open>os.remove\<close> deletes the input file, raising when it
  is not there.
\<close>

definition annotate_image ::
  "'f externals \<Rightarrow> 'f imager \<Rightarrow> string \<times> int \<Rightarrow> state \<Rightarrow> (error + unit) \<times> state" where
  "annotate_image ext self args st =
     (case args of (f, time) \<Rightarrow>
        (case label_of ext (t0 self) time of
           Inl e \<Rightarrow> (Inl e, st)
         | Inr label \<Rightarrow>
             (let out = str_replace ''_raw'' [] f
              in if path_exists out (files st) then (Inr (), st)
                 else (let command = convert_command f label out;
                           (status, fs1) = os_system ext command (files st);
                           st1 = st\<lparr>files := fs1, commands := commands st @ [command]\<rparr>
                       in if path_exists f fs1
                          then (Inr (), st1\<lparr>files := remove_file f fs1\<rparr>)
                          else (Inl FileNotFoundError, st1)))))"








section \<open>VideoMaker and EthoscopeImager\<close>





section \<open>File names and the order of records\<close>

text \<open>
  The \<open>w\<close> low decimal digits of \<open>n\<close>, most significant first: what the width-five
  format prints for an id that fits it.
\<close>

fun fixed_digits :: "nat \<Rightarrow> nat \<Rightarrow> string" where
  "fixed_digits 0 n = []"
| "fixed_digits (Suc w) n = fixed_digits w (n div 10) @ [digit_char (n mod 10)]"

text \<open>Either of the two names \<^verbatim>\<open>save_frame\<close> derives, by the raw marker.\<close>

definition frame_path :: "string \<Rightarrow> int \<Rightarrow> int \<Rightarrow> bool \<Rightarrow> string" where
  "frame_path folder i t raw = (if raw then file_name_raw folder i t else file_name folder i t)"

text \<open>
  The order of two frame records \<open>(id, t)\<close> in time: by sequence id, and within one id
  by time offset. Strings are compared as Python and the shell's glob do, character by
  character (\<open><\<close> on \<^typ>\<open>string\<close>).
\<close>

definition record_before :: "int \<times> int \<Rightarrow> int \<times> int \<Rightarrow> bool" where
  "record_before r1 r2 = (fst r1 < fst r2 \<or> fst r1 = fst r2 \<and> snd r1 < snd r2)"

section \<open>Example inputs\<close>

text \<open>
  The inputs the closed theorems below are evaluated on: an archive \<^verbatim>\<open>/data/exp.db\<close>
  with the record \<open>(3, 2000, blob)\<close>. In them a float is written as its integer value.
\<close>

definition example_self :: "int imager" where
  "example_self =
     \<lparr>path = ''/data/exp.db'', filename = ''exp.db'', experiment_folder = ''/data'',
      img_snapshots = ''/data/IMG_SNAPSHOTS'', t0 = PyFloat 1700000000\<rparr>"

definition example_raw :: string where
  "example_raw = ''/data/IMG_SNAPSHOTS/00003_2000_raw.jpg''"

definition example_labeled :: string where
  "example_labeled = ''/data/IMG_SNAPSHOTS/00003_2000.jpg''"

definition state_with :: "filesystem \<Rightarrow> state" where
  "state_with fs = \<lparr>files = fs, commands = [], statements = []\<rparr>"

text \<open>
  A \<^verbatim>\<open>float\<close> for the examples. It agrees with Python's on the texts the examples use:
  an integer numeral below \<open>2 ^ 53\<close> gives that value, and a text that is no numeral
  at all, such as \<^verbatim>\<open>abc\<close>, raises \<^verbatim>\<open>ValueError\<close>. It is not Python's \<^verbatim>\<open>float\<close> on other
  texts (decimal points, exponents, longer numerals).
\<close>

definition example_float :: "string \<Rightarrow> error + int" where
  "example_float s = (case int_of_str s of Inl e \<Rightarrow> Inl ValueError | Inr i \<Rightarrow> Inr i)"

definition example_label :: "int pynum \<Rightarrow> int \<Rightarrow> error + string" where
  "example_label t time = Inr ''2023-11-14 22:13:22''"

text \<open>
  Two shells: one on which every command fails with status 127 and changes nothing
  (the tool is not installed), one on which the command succeeds and writes its last
  word, the output path.
\<close>

definition shell_fails :: "string \<Rightarrow> filesystem \<Rightarrow> int \<times> filesystem" where
  "shell_fails command fs = (127, fs)"

definition shell_writes :: "string \<Rightarrow> filesystem \<Rightarrow> int \<times> filesystem" where
  "shell_writes command fs = (0, write_file (last (split_on CHR '' '' command)) [74] fs)"


definition glob_no_match :: "string \<Rightarrow> filesystem \<Rightarrow> string list" where
  "glob_no_match pathname fs = []"


definition example_rows :: "string \<Rightarrow> error + (int \<times> int \<times> bytes) list" where
  "example_rows statement = Inr [(3, 2000, [255, 216])]"

definition example_ext ::
  "(string \<times> string) list \<Rightarrow> (string \<Rightarrow> filesystem \<Rightarrow> int \<times> filesystem) \<Rightarrow> int externals" where
  "example_ext meta shell =
     \<lparr>py_float = example_float, label_of = example_label, os_system = shell,
      metadata_rows = Inr meta, snapshot_rows = example_rows, glob_other = glob_no_match\<rparr>"

section \<open>Decimal strings\<close>

lemma of_char_digit_char: "d < 10 \<Longrightarrow> (of_char (digit_char d) :: nat) = 48 + d"
  by (simp add: digit_char_def)

lemma is_digit_digit_char: "d < 10 \<Longrightarrow> is_digit (digit_char d)"
  by (simp add: is_digit_def of_char_digit_char)

lemma digit_char_less: "a < 10 \<Longrightarrow> b < 10 \<Longrightarrow> digit_char a < digit_char b \<longleftrightarrow> a < b"
  by (simp add: less_char_def of_char_digit_char)

lemma digit_char_inj: "a < 10 \<Longrightarrow> b < 10 \<Longrightarrow> digit_char a = digit_char b \<longleftrightarrow> a = b"
  by (metis add_left_cancel of_char_digit_char)

lemma str_nat_nonempty: "str_nat n \<noteq> []"
  by (subst str_nat.simps) simp

lemma str_nat_digits: "list_all is_digit (str_nat n)"
proof (induction n rule: str_nat.induct)
  case (1 n)
  show ?case
  proof (cases "n < 10")
    case True
    then show ?thesis by (subst str_nat.simps) (simp add: is_digit_digit_char)
  next
    case False
    with 1 show ?thesis by (subst str_nat.simps) (simp add: is_digit_digit_char)
  qed
qed

lemma digits_value_snoc: "digits_value (ds @ [c]) = 10 * digits_value ds + (of_char c - 48)"
  by (simp add: digits_value_def)

lemma digits_value_str_nat: "digits_value (str_nat n) = n"
proof (induction n rule: str_nat.induct)
  case (1 n)
  show ?case
  proof (cases "n < 10")
    case True
    then show ?thesis
      by (subst str_nat.simps) (simp add: digits_value_def of_char_digit_char)
  next
    case False
    with 1 have "digits_value (str_nat (n div 10)) = n div 10" by simp
    with False show ?thesis
      by (subst str_nat.simps) (simp add: digits_value_snoc of_char_digit_char)
  qed
qed

lemma is_digit_not_space: "is_digit c \<Longrightarrow> \<not> is_space c"
  by (auto simp: is_digit_def is_space_def)

lemma strip_no_space_ends:
  assumes "s \<noteq> []" "\<not> is_space (hd s)" "\<not> is_space (last s)"
  shows "strip s = s"
proof -
  from assms have a: "dropWhile is_space s = s" by (cases s) auto
  from assms have "rev s \<noteq> []" "\<not> is_space (hd (rev s))" by (simp_all add: hd_rev)
  then have "dropWhile is_space (rev s) = rev s" by (cases "rev s") auto
  with a show ?thesis by (simp add: strip_def)
qed

lemma str_nat_hd_digit: "is_digit (hd (str_nat n))"
  using str_nat_digits [of n] str_nat_nonempty [of n]
  by (cases "str_nat n") simp_all

lemma str_nat_last_digit: "is_digit (last (str_nat n))"
  using str_nat_digits [of n] str_nat_nonempty [of n]
  by (simp add: list_all_iff)

lemma int_of_str_str_int: "int_of_str (str_int i) = Inr i"
proof (cases "i < 0")
  case True
  have nsp: "\<not> is_space CHR ''-''" by (simp add: is_space_def)
  have "strip (CHR ''-'' # str_nat (nat (- i))) = CHR ''-'' # str_nat (nat (- i))"
    by (rule strip_no_space_ends)
       (simp_all add: nsp str_nat_nonempty is_digit_not_space str_nat_last_digit)
  with True show ?thesis
    by (simp add: int_of_str_def str_int_def str_nat_nonempty str_nat_digits digits_value_str_nat)
next
  case False
  have nm: "hd (str_nat (nat i)) \<noteq> CHR ''-''" "hd (str_nat (nat i)) \<noteq> CHR ''+''"
    using str_nat_hd_digit [of "nat i"] by (auto simp: is_digit_def)
  have "strip (str_nat (nat i)) = str_nat (nat i)"
    by (rule strip_no_space_ends)
       (simp_all add: str_nat_nonempty is_digit_not_space str_nat_last_digit str_nat_hd_digit)
  with False nm show ?thesis
    by (simp add: int_of_str_def str_int_def str_nat_nonempty str_nat_digits digits_value_str_nat)
qed

lemma split_on_no_sep: "sep \<notin> set s \<Longrightarrow> split_on sep s = [s]"
  by (induction s) auto

lemma split_on_append_sep:
  "sep \<notin> set s \<Longrightarrow> split_on sep (s @ sep # r) = s # split_on sep r"
  by (induction s) auto

lemma split_on_str_join_Cons:
  "\<forall>x\<in>set (x0 # xs). sep \<notin> set x \<Longrightarrow> split_on sep (str_join [sep] (x0 # xs)) = x0 # xs"
proof (induction xs arbitrary: x0)
  case Nil
  then show ?case by (simp add: split_on_no_sep)
next
  case (Cons y ys)
  then have "split_on sep (str_join [sep] (y # ys)) = y # ys" by simp
  with Cons.prems show ?case by (simp add: split_on_append_sep)
qed

lemma split_on_str_join:
  "xs \<noteq> [] \<Longrightarrow> \<forall>x\<in>set xs. sep \<notin> set x \<Longrightarrow> split_on sep (str_join [sep] xs) = xs"
  using split_on_str_join_Cons by (cases xs) auto

lemma comma_not_in_str_nat: "c \<in> set (str_nat n) \<Longrightarrow> is_digit c"
  using str_nat_digits [of n] by (simp add: list_all_iff)

lemma comma_not_in_str_int: "CHR '','' \<notin> set (str_int i)"
  using comma_not_in_str_nat [of "CHR '',''"]
  by (auto simp: str_int_def is_digit_def)

section \<open>Properties of the criteria builder\<close>

lemma name_Integer_unbound: "\<not> name_is_bound ''Integer''"
  by (simp add: name_is_bound_def module_globals_def builtin_names_def)

lemma make_criteria_list:
  "make_criteria column (VList es) = Inr (column @ '' in ('' @ str_join '','' (map str_elem es) @ '')'')"
  by (simp add: make_criteria_def)

lemma make_criteria_not_list:
  "(\<forall>es. v \<noteq> VList es) \<Longrightarrow> make_criteria column v = Inl NameError"
  by (cases v) (simp_all add: make_criteria_def isinstance_Integer_def name_Integer_unbound)


lemma get_criteria_only_id:
  "get_criteria (Some v) None = map_sum (\<lambda>e. e) Some (make_criteria ''id'' v)"
  by (cases "make_criteria ''id'' v") (simp_all add: get_criteria_def)

lemma get_criteria_only_t:
  "get_criteria None (Some v) = map_sum (\<lambda>e. e) Some (make_criteria ''t'' v)"
  by (cases "make_criteria ''t'' v") (simp_all add: get_criteria_def)

lemma get_criteria_both_lists:
  "get_criteria (Some (VList xs)) (Some (VList ys)) = Inr (Some ''{id_criteria} {flag} {t_criteria}'')"
  by (simp add: get_criteria_def make_criteria_def)

text \<open>
  C3. With an identifier filter and a time filter both given, the criteria builder
  should return the two predicates joined by the caller's connective. On the filters
  \<^verbatim>\<open>id=[1]\<close>, \<^verbatim>\<open>t=[2]\<close> the method returns the text of its own template instead: the
  literal has no \<^verbatim>\<open>f\<close> prefix and the connective never reaches the method. (With one
  filter the result is that filter's predicate, with none it is \<^verbatim>\<open>None\<close>:
  \<open>get_criteria_only_id\<close>, \<open>get_criteria_only_t\<close>, \<open>get_criteria_none\<close>.)
\<close>

theorem get_criteria_both_is_template:
  "get_criteria (Some (VList [EInt 1])) (Some (VList [EInt 2]))
     = Inr (Some ''{id_criteria} {flag} {t_criteria}'')
   \<and> get_criteria (Some (VList [EInt 1])) (Some (VList [EInt 2]))
     \<noteq> Inr (Some ''id in (1) OR t in (2)'')"
  by (simp add: get_criteria_def make_criteria_def)

text \<open>
  C4. For an integer scalar \<^verbatim>\<open>make_criteria\<close> should return the equality predicate
  \<^verbatim>\<open>column = value\<close>. It raises \<^verbatim>\<open>NameError\<close> instead, for every integer and every
  column: the \<^verbatim>\<open>elif\<close> test names \<^verbatim>\<open>Integer\<close>, which the module never binds, so neither
  the equality branch nor the final \<^verbatim>\<open>raise\<close> is ever reached.
\<close>

theorem make_criteria_integer_raises_NameError:
  "make_criteria column (VInt n) = Inl NameError"
  by (simp add: make_criteria_def isinstance_Integer_def name_Integer_unbound)

text \<open>
  C8, as stated, at the empty list: the call does not fail, it returns the predicate
  \<^verbatim>\<open>id in ()\<close>.
\<close>

theorem make_criteria_empty_list_returns:
  "make_criteria ''id'' (VList []) = Inr ''id in ()''"
  by (simp add: make_criteria_def)

text \<open>
  C8, amended. For every list of integers, empty or not, \<^verbatim>\<open>make_criteria\<close> returns
  \<^verbatim>\<open>column in (v1,v2,...)\<close>; for a non-empty list, splitting the text between the
  parentheses at the commas and reading each piece back as an integer gives exactly the
  listed values, each once and in the order given.
\<close>

theorem make_criteria_int_list:
  "make_criteria column (VList (map EInt vs))
     = Inr (column @ '' in ('' @ str_join '','' (map str_int vs) @ '')'')
   \<and> (vs \<noteq> [] \<longrightarrow>
        map int_of_str (split_on CHR '','' (str_join '','' (map str_int vs))) = map Inr vs)"
proof -
  have "vs \<noteq> [] \<Longrightarrow> split_on CHR '','' (str_join '','' (map str_int vs)) = map str_int vs"
    by (rule split_on_str_join) (auto simp: comma_not_in_str_int)
  then show ?thesis
    by (simp add: make_criteria_list comp_def int_of_str_str_int)
qed

theorem make_criteria_int_list_witness:
  "make_criteria ''id'' (VList [EInt 1, EInt 22, EInt (- 3)]) = Inr ''id in (1,22,-3)''
   \<and> map int_of_str (split_on CHR '','' ''1,22,-3'') = [Inr 1, Inr 22, Inr (- 3)]"
proof -
  have s: "str_int 1 = ''1''" "str_int 22 = ''22''" "str_int (- 3) = ''-3''"
    by code_simp+
  show ?thesis using make_criteria_int_list [of "''id''" "[1, 22, - 3]"] by (simp add: s)
qed

lemma example_names:
  "file_name_raw ''/data'' 3 2000 = example_raw" "file_name ''/data'' 3 2000 = example_labeled"
  by (simp_all add: example_raw_def example_labeled_def) code_simp+

lemma path_exists_write: "path_exists p (write_file p b fs)"
  by (simp add: path_exists_def write_file_def update_conv')

lemma path_exists_write_other: "q \<noteq> p \<Longrightarrow> path_exists q (write_file p b fs) = path_exists q fs"
  by (simp add: path_exists_def write_file_def update_conv')

lemma path_exists_remove: "\<not> path_exists p (remove_file p fs)"
  by (simp add: path_exists_def remove_file_def delete_conv')


section \<open>Extraction\<close>

text \<open>
  C1. \<^verbatim>\<open>save_frame\<close> returns the raw path derived from \<open>(id, t)\<close> in every case; a
  second call on the same \<open>(id, t)\<close>, whatever blob it is given, returns the same path and
  leaves the state the first call produced as it is; and when the raw or the labeled
  path is already there, the call returns the raw path and the state is unchanged.
\<close>

theorem save_frame_idempotent:
  "fst (save_frame self i t blob st) = file_name_raw (experiment_folder self) i t
   \<and> save_frame self i t blob' (snd (save_frame self i t blob st)) = save_frame self i t blob st
   \<and> (path_exists (file_name (experiment_folder self) i t) (files st)
        \<or> path_exists (file_name_raw (experiment_folder self) i t) (files st)
      \<longrightarrow> save_frame self i t blob st = (file_name_raw (experiment_folder self) i t, st))"
  by (simp add: save_frame_def Let_def path_exists_write)

theorem save_frame_idempotent_witness:
  "path_exists example_raw (files (state_with [(example_raw, [1])]))
   \<and> save_frame example_self 3 2000 [255, 216] (state_with [(example_raw, [1])])
       = (example_raw, state_with [(example_raw, [1])])
   \<and> save_frame example_self 3 2000 [255, 216] (state_with [])
       = (example_raw, state_with [(example_raw, [255, 216])])
   \<and> save_frame example_self 3 2000 [7] (state_with [(example_raw, [255, 216])])
       = (example_raw, state_with [(example_raw, [255, 216])])"
proof -
  have e: "experiment_folder example_self = ''/data''" by (simp add: example_self_def)
  have p: "path_exists example_raw (files (state_with [(example_raw, [1])]))"
    by (simp add: path_exists_def state_with_def)
  have w: "save_frame example_self 3 2000 [255, 216] (state_with [])
             = (example_raw, state_with [(example_raw, [255, 216])])"
    by (simp add: save_frame_def e example_names path_exists_def state_with_def write_file_def)
  show ?thesis
    using save_frame_idempotent [of example_self 3 2000 "[255, 216]" "state_with [(example_raw, [1])]" "[7]"]
      save_frame_idempotent [of example_self 3 2000 "[255, 216]" "state_with []" "[7]"]
    by (simp add: e example_names p w)
qed

lemma get_frame_Some_not_None:
  "get_frame ext self (Some c) st = (Inr r, st') \<Longrightarrow> r \<noteq> None"
  by (auto simp: get_frame_def Let_def split: sum.splits prod.splits)


lemma init_img_snapshots:
  "init ext p = Inr self \<Longrightarrow>
   img_snapshots self = path_join (experiment_folder self) [''IMG_SNAPSHOTS'']"
  by (auto simp: init_def split: sum.splits)









lemma list_snapshots_example:
  "list_snapshots (example_ext [] shell_fails) example_self
     [(example_labeled, [1]), (''/data/IMG_SNAPSHOTS/exp.db.mp4'', [2]),
      (''/data/exp.db'', [3]), (''/data/IMG_SNAPSHOTS/00004_2100_raw.jpg'', [4]),
      (''/data/IMG_SNAPSHOTS/.hidden.jpg'', [5]), (''/data/IMG_SNAPSHOTS/sub/a.jpg'', [6]),
      (''/data/IMG_SNAPSHOTS/dir.jpg/x'', [7])]
   = [example_labeled, ''/data/IMG_SNAPSHOTS/00004_2100_raw.jpg'', ''/data/IMG_SNAPSHOTS/dir.jpg'']"
  by (simp add: list_snapshots_def Let_def example_self_def path_join_def path_join2_def
        dirname_def has_magic_def listdir_def glob1_jpg_def ends_with_def example_labeled_def)


lemma t0_loop_no_date_time:
  "\<forall>(f, v)\<in>set rows. f \<noteq> ''date_time'' \<Longrightarrow> t0_loop fl acc rows = Inr acc"
  by (induction rows) auto

lemma t0_loop_prefix:
  "\<forall>(f, w)\<in>set pre. f = ''date_time'' \<longrightarrow> (\<exists>y. fl w = Inr y) \<Longrightarrow>
   \<exists>acc'. t0_loop fl acc (pre @ rest) = t0_loop fl acc' rest"
proof (induction pre arbitrary: acc)
  case Nil
  then show ?case by auto
next
  case (Cons r pre)
  obtain f w where r: "r = (f, w)" by (cases r)
  show ?case
  proof (cases "f = ''date_time''")
    case True
    with Cons.prems r obtain y where y: "fl w = Inr y" by auto
    from Cons.prems have "\<forall>(f, w)\<in>set pre. f = ''date_time'' \<longrightarrow> (\<exists>y. fl w = Inr y)" by simp
    from Cons.IH [OF this, of "PyFloat y"] True r y show ?thesis by simp
  next
    case False
    from Cons.prems have "\<forall>(f, w)\<in>set pre. f = ''date_time'' \<longrightarrow> (\<exists>y. fl w = Inr y)" by simp
    from Cons.IH [OF this, of acc] False r show ?thesis by simp
  qed
qed

lemma annotate_image_command:
  "label_of ext (t0 self) time = Inr label \<Longrightarrow>
   \<not> path_exists (str_replace ''_raw'' [] f) (files st) \<Longrightarrow>
   commands (snd (annotate_image ext self (f, time) st))
     = commands st @ [convert_command f label (str_replace ''_raw'' [] f)]"
  by (simp add: annotate_image_def Let_def split: prod.splits)

text \<open>
  C10, amended. Given the rows of \<^verbatim>\<open>METADATA\<close>: with no \<^verbatim>\<open>date_time\<close> row \<^verbatim>\<open>get_t0\<close>
  returns the integer 0, the object is built with \<open>t0 = 0\<close>, and the label in every
  command of \<^verbatim>\<open>annotate_image\<close> is the one computed from \<open>t0 = 0\<close>. With \<^verbatim>\<open>date_time\<close>
  rows whose values \<^verbatim>\<open>float\<close> accepts, every one of them, \<^verbatim>\<open>get_t0\<close> returns the float of
  the last. At the first \<^verbatim>\<open>date_time\<close> row whose value \<^verbatim>\<open>float\<close> rejects, \<^verbatim>\<open>get_t0\<close> raises,
  whatever rows follow.
\<close>

theorem get_t0_cases:
  assumes rows: "metadata_rows ext = Inr rows"
  shows "((\<forall>(f, v)\<in>set rows. f \<noteq> ''date_time'')
          \<longrightarrow> get_t0 ext = Inr (PyInt 0)
            \<and> (\<exists>self. init ext p = Inr self \<and> t0 self = PyInt 0
                 \<and> (\<forall>f time st label.
                       label_of ext (PyInt 0) time = Inr label
                       \<and> \<not> path_exists (str_replace ''_raw'' [] f) (files st)
                       \<longrightarrow> commands (snd (annotate_image ext self (f, time) st))
                           = commands st @ [convert_command f label (str_replace ''_raw'' [] f)])))
     \<and> (rows = pre @ (''date_time'', v) # post
          \<and> (\<forall>(f, w)\<in>set pre. f = ''date_time'' \<longrightarrow> (\<exists>y. py_float ext w = Inr y))
          \<and> (\<forall>(f, w)\<in>set post. f \<noteq> ''date_time'')
          \<and> py_float ext v = Inr x
        \<longrightarrow> get_t0 ext = Inr (PyFloat x))
     \<and> (rows = pre @ (''date_time'', v) # post
          \<and> (\<forall>(f, w)\<in>set pre. f = ''date_time'' \<longrightarrow> (\<exists>y. py_float ext w = Inr y))
          \<and> py_float ext v = Inl e
        \<longrightarrow> get_t0 ext = Inl e)"
proof (intro conjI impI)
  assume n: "\<forall>(f, v)\<in>set rows. f \<noteq> ''date_time''"
  then show g: "get_t0 ext = Inr (PyInt 0)"
    by (simp add: get_t0_def rows t0_loop_no_date_time)
  show "\<exists>self. init ext p = Inr self \<and> t0 self = PyInt 0
                 \<and> (\<forall>f time st label.
                       label_of ext (PyInt 0) time = Inr label
                       \<and> \<not> path_exists (str_replace ''_raw'' [] f) (files st)
                       \<longrightarrow> commands (snd (annotate_image ext self (f, time) st))
                           = commands st @ [convert_command f label (str_replace ''_raw'' [] f)])"
    by (simp add: init_def g annotate_image_command)
next
  assume a: "rows = pre @ (''date_time'', v) # post
          \<and> (\<forall>(f, w)\<in>set pre. f = ''date_time'' \<longrightarrow> (\<exists>y. py_float ext w = Inr y))
          \<and> (\<forall>(f, w)\<in>set post. f \<noteq> ''date_time'')
          \<and> py_float ext v = Inr x"
  then obtain acc' where
    "t0_loop (py_float ext) (PyInt 0) (pre @ (''date_time'', v) # post)
       = t0_loop (py_float ext) acc' ((''date_time'', v) # post)"
    using t0_loop_prefix [of pre "py_float ext" "PyInt 0" "(''date_time'', v) # post"] by blast
  with a show "get_t0 ext = Inr (PyFloat x)"
    by (simp add: get_t0_def rows t0_loop_no_date_time)
next
  assume a: "rows = pre @ (''date_time'', v) # post
          \<and> (\<forall>(f, w)\<in>set pre. f = ''date_time'' \<longrightarrow> (\<exists>y. py_float ext w = Inr y))
          \<and> py_float ext v = Inl e"
  then obtain acc' where
    "t0_loop (py_float ext) (PyInt 0) (pre @ (''date_time'', v) # post)
       = t0_loop (py_float ext) acc' ((''date_time'', v) # post)"
    using t0_loop_prefix [of pre "py_float ext" "PyInt 0" "(''date_time'', v) # post"] by blast
  with a show "get_t0 ext = Inl e"
    by (simp add: get_t0_def rows)
qed

lemma example_float_values:
  "example_float ''5'' = Inr 5" "example_float ''7'' = Inr 7"
  "example_float ''1700000000'' = Inr 1700000000" "example_float ''abc'' = Inl ValueError"
  by (simp_all add: example_float_def int_of_str_def strip_def is_space_def is_digit_def
        digits_value_def)

text \<open>
  C10, as stated, at the rows \<^verbatim>\<open>('date_time', 'abc')\<close>, \<^verbatim>\<open>('date_time', '7')\<close>: the last
  \<^verbatim>\<open>date_time\<close> row has a value \<^verbatim>\<open>float\<close> accepts, and \<^verbatim>\<open>get_t0\<close> raises at the first.
\<close>

theorem get_t0_bad_then_good:
  "get_t0 (example_ext [(''date_time'', ''abc''), (''date_time'', ''7'')] shell_fails)
     = Inl ValueError
   \<and> py_float (example_ext [(''date_time'', ''abc''), (''date_time'', ''7'')] shell_fails) ''7''
     = Inr 7"
  by (simp add: get_t0_def example_ext_def example_float_values)

theorem get_t0_cases_witness:
  "get_t0 (example_ext [(''version'', ''1'')] shell_fails) = Inr (PyInt 0)
   \<and> (\<exists>self. init (example_ext [(''version'', ''1'')] shell_fails) ''/data/exp.db'' = Inr self
         \<and> t0 self = PyInt 0)
   \<and> get_t0 (example_ext [(''date_time'', ''5''), (''machine'', ''E1''),
                           (''date_time'', ''1700000000''), (''x'', ''y'')] shell_fails)
       = Inr (PyFloat 1700000000)
   \<and> get_t0 (example_ext [(''date_time'', ''5''), (''date_time'', ''abc''),
                           (''date_time'', ''7'')] shell_fails)
       = Inl ValueError"
proof -
  have m: "metadata_rows (example_ext rows sh) = Inr rows" for rows sh
    by (simp add: example_ext_def)
  have f: "py_float (example_ext rows sh) = example_float" for rows sh
    by (simp add: example_ext_def)
  note a = get_t0_cases [where ext = "example_ext [(''version'', ''1'')] shell_fails"
             and rows = "[(''version'', ''1'')]" and p = "''/data/exp.db''",
             OF m, THEN conjunct1, rule_format]
  note b = get_t0_cases [where ext = "example_ext [(''date_time'', ''5''), (''machine'', ''E1''),
                           (''date_time'', ''1700000000''), (''x'', ''y'')] shell_fails"
             and rows = "[(''date_time'', ''5''), (''machine'', ''E1''),
                           (''date_time'', ''1700000000''), (''x'', ''y'')]"
             and pre = "[(''date_time'', ''5''), (''machine'', ''E1'')]"
             and v = "''1700000000''" and post = "[(''x'', ''y'')]" and x = 1700000000,
             OF m, THEN conjunct2, THEN conjunct1, rule_format]
  note c = get_t0_cases [where ext = "example_ext [(''date_time'', ''5''), (''date_time'', ''abc''),
                           (''date_time'', ''7'')] shell_fails"
             and rows = "[(''date_time'', ''5''), (''date_time'', ''abc''), (''date_time'', ''7'')]"
             and pre = "[(''date_time'', ''5'')]" and v = "''abc''"
             and post = "[(''date_time'', ''7'')]" and e = ValueError,
             OF m, THEN conjunct2, THEN conjunct2, rule_format]
  have a': "get_t0 (example_ext [(''version'', ''1'')] shell_fails) = Inr (PyInt 0)
   \<and> (\<exists>self. init (example_ext [(''version'', ''1'')] shell_fails) ''/data/exp.db'' = Inr self
         \<and> t0 self = PyInt 0)"
    using a by fastforce
  have b': "get_t0 (example_ext [(''date_time'', ''5''), (''machine'', ''E1''),
                           (''date_time'', ''1700000000''), (''x'', ''y'')] shell_fails)
       = Inr (PyFloat 1700000000)"
    by (rule b) (simp add: f example_float_values)
  have c': "get_t0 (example_ext [(''date_time'', ''5''), (''date_time'', ''abc''),
                           (''date_time'', ''7'')] shell_fails)
       = Inl ValueError"
    by (rule c) (simp add: f example_float_values)
  from a' b' c' show ?thesis by blast
qed

section \<open>Annotation\<close>

lemma annotate_image_skip:
  "path_exists (str_replace ''_raw'' [] f) (files st) \<Longrightarrow>
   annotate_image ext self (f, time) st
     = (case label_of ext (t0 self) time of Inl e \<Rightarrow> (Inl e, st) | Inr l \<Rightarrow> (Inr (), st))"
  by (simp add: annotate_image_def split: sum.splits)

lemma annotate_image_commands_length:
  "length (commands (snd (annotate_image ext self (f, time) st))) \<le> length (commands st) + 1"
  by (simp add: annotate_image_def Let_def split: sum.splits prod.splits)

lemma example_out: "str_replace ''_raw'' [] example_raw = example_labeled"
  by (simp add: example_raw_def example_labeled_def)

lemma example_raw_neq: "example_raw \<noteq> example_labeled" "example_labeled \<noteq> example_raw"
  by (simp_all add: example_raw_def example_labeled_def)

lemma example_ext_shell: "os_system (example_ext m sh) = sh"
  by (simp add: example_ext_def)

lemma example_self_t0: "label_of (example_ext m sh) (t0 example_self) time = Inr ''2023-11-14 22:13:22''"
  by (simp add: example_ext_def example_label_def)






text \<open>
  C5, as stated, on a frame whose raw and labeled files both exist (the state a run
  interrupted between the tool and the removal leaves): the step returns at once, and
  both files are still there.
\<close>

theorem annotate_image_keeps_both_files:
  "annotate_image (example_ext [] shell_writes) example_self (example_raw, 2000)
      (state_with [(example_raw, [1]), (example_labeled, [2])])
     = (Inr (), state_with [(example_raw, [1]), (example_labeled, [2])])
   \<and> path_exists example_raw [(example_raw, [1]), (example_labeled, [2])]
   \<and> path_exists example_labeled [(example_raw, [1]), (example_labeled, [2])]"
  by (simp add: annotate_image_def example_self_t0 example_out state_with_def path_exists_def)

text \<open>
  C5, amended. If the raw and the labeled file of \<open>(id, t)\<close> do not both exist before
  the step, then after the step has returned at most one of them exists; and when the
  output path already exists the step changes nothing, so whatever raw file was there
  stays.
\<close>

theorem annotate_image_at_most_one:
  assumes "annotate_image ext self (file_name_raw folder i t, time) st = (Inr (), st')"
      and "\<not> (path_exists (file_name_raw folder i t) (files st)
               \<and> path_exists (file_name folder i t) (files st))"
  shows "\<not> (path_exists (file_name_raw folder i t) (files st')
             \<and> path_exists (file_name folder i t) (files st'))
         \<and> (path_exists (str_replace ''_raw'' [] (file_name_raw folder i t)) (files st)
              \<longrightarrow> st' = st)"
  using assms
  by (auto simp: annotate_image_def Let_def path_exists_remove
           split: sum.splits prod.splits if_splits)

text \<open>
  C6, as stated, on a shell where the tool fails and writes nothing: two runs of the
  step on the same frame hand two commands to the shell (the second run then raises at
  the removal of the raw file, which the first run deleted).
\<close>

theorem annotate_image_twice_failing_tool:
  "length (commands (snd (annotate_image (example_ext [] shell_fails) example_self (example_raw, 2000)
      (snd (annotate_image (example_ext [] shell_fails) example_self (example_raw, 2000)
             (state_with [(example_raw, [255, 216])])))))) = 2"
  by (simp add: annotate_image_def example_self_t0 example_out example_raw_neq state_with_def
        path_exists_def remove_file_def example_ext_shell shell_fails_def)

text \<open>
  C6, amended. When the output path already exists the step leaves the state as it is:
  no command is run and no file written. So if the output path exists after a first run
  of the step, a second run changes nothing, and both runs together hand at most one
  command to the shell.
\<close>

theorem annotate_image_twice:
  "(path_exists (str_replace ''_raw'' [] f) (files st)
      \<longrightarrow> snd (annotate_image ext self (f, time) st) = st)
   \<and> (path_exists (str_replace ''_raw'' [] f) (files (snd (annotate_image ext self (f, time) st)))
      \<longrightarrow> snd (annotate_image ext self (f, time) (snd (annotate_image ext self (f, time) st)))
            = snd (annotate_image ext self (f, time) st)
          \<and> length (commands (snd (annotate_image ext self (f, time)
                                     (snd (annotate_image ext self (f, time) st)))))
              \<le> length (commands st) + 1)"
  using annotate_image_commands_length [of ext self f time st]
  by (auto simp: annotate_image_skip split: sum.splits)


lemma shell_writes_example:
  "shell_writes (convert_command example_raw ''2023-11-14 22:13:22'' example_labeled) fs
     = (0, write_file example_labeled [74] fs)"
  by (simp add: shell_writes_def convert_command_def example_raw_def example_labeled_def)

lemma annotate_image_example_run:
  "annotate_image (example_ext [] shell_writes) example_self (example_raw, 2000)
      (state_with [(example_raw, [255, 216])])
     = (Inr (), \<lparr>files = [(example_labeled, [74])],
                  commands = [convert_command example_raw ''2023-11-14 22:13:22'' example_labeled],
                  statements = []\<rparr>)"
  by (simp add: annotate_image_def example_self_t0 example_out example_raw_neq state_with_def
        path_exists_def remove_file_def write_file_def example_ext_shell shell_writes_example)

theorem annotate_image_at_most_one_witness:
  "annotate_image (example_ext [] shell_writes) example_self (example_raw, 2000)
      (state_with [(example_raw, [255, 216])])
     = (Inr (), \<lparr>files = [(example_labeled, [74])],
                  commands = [convert_command example_raw ''2023-11-14 22:13:22'' example_labeled],
                  statements = []\<rparr>)
   \<and> \<not> path_exists example_raw [(example_labeled, [74])]
   \<and> path_exists example_labeled [(example_labeled, [74])]
   \<and> annotate_image (example_ext [] shell_writes) example_self (example_raw, 2000)
      (state_with [(example_labeled, [74])]) = (Inr (), state_with [(example_labeled, [74])])"
proof -
  have skip: "annotate_image (example_ext [] shell_writes) example_self (example_raw, 2000)
      (state_with [(example_labeled, [74])]) = (Inr (), state_with [(example_labeled, [74])])"
    by (simp add: annotate_image_def example_self_t0 example_out state_with_def path_exists_def)
  have pre: "\<not> (path_exists (file_name_raw ''/data'' 3 2000) (files (state_with [(example_raw, [255, 216])]))
               \<and> path_exists (file_name ''/data'' 3 2000) (files (state_with [(example_raw, [255, 216])])))"
    by (simp add: example_names example_raw_neq state_with_def path_exists_def)
  have pre2: "\<not> (path_exists (file_name_raw ''/data'' 3 2000) (files (state_with [(example_labeled, [74])]))
               \<and> path_exists (file_name ''/data'' 3 2000) (files (state_with [(example_labeled, [74])])))"
    by (simp add: example_names example_raw_neq state_with_def path_exists_def)
  have run1: "annotate_image (example_ext [] shell_writes) example_self
                (file_name_raw ''/data'' 3 2000, 2000) (state_with [(example_raw, [255, 216])])
     = (Inr (), \<lparr>files = [(example_labeled, [74])],
                  commands = [convert_command example_raw ''2023-11-14 22:13:22'' example_labeled],
                  statements = []\<rparr>)"
    using annotate_image_example_run by (simp add: example_names)
  have run2: "annotate_image (example_ext [] shell_writes) example_self
                (file_name_raw ''/data'' 3 2000, 2000) (state_with [(example_labeled, [74])])
     = (Inr (), state_with [(example_labeled, [74])])"
    using skip by (simp add: example_names)
  show ?thesis
    using annotate_image_at_most_one [OF run1 pre] annotate_image_at_most_one [OF run2 pre2]
    by (simp add: annotate_image_example_run skip example_names path_exists_def example_raw_neq)
qed

theorem annotate_image_twice_witness:
  "path_exists example_labeled
     (files (snd (annotate_image (example_ext [] shell_writes) example_self (example_raw, 2000)
                    (state_with [(example_raw, [255, 216])]))))
   \<and> snd (annotate_image (example_ext [] shell_writes) example_self (example_raw, 2000)
        (snd (annotate_image (example_ext [] shell_writes) example_self (example_raw, 2000)
                (state_with [(example_raw, [255, 216])]))))
     = \<lparr>files = [(example_labeled, [74])],
        commands = [convert_command example_raw ''2023-11-14 22:13:22'' example_labeled],
        statements = []\<rparr>"
  using annotate_image_twice [of example_raw "state_with [(example_raw, [255, 216])]"
          "example_ext [] shell_writes" example_self 2000]
  by (simp add: annotate_image_example_run example_out path_exists_def)

section \<open>The order of file names\<close>

lemma append_less_same_length:
  "length xs = length ys \<Longrightarrow> (xs @ u < ys @ v) = (xs < ys \<or> xs = ys \<and> u < (v::'a::linorder list))"
  by (induction xs ys rule: list_induct2) auto

lemma length_fixed_digits: "length (fixed_digits w n) = w"
  by (induction w arbitrary: n) auto

lemma digit_char_0: "digit_char 0 = CHR ''0''"
  by code_simp

lemma fixed_digits_zero: "fixed_digits w 0 = replicate w CHR ''0''"
  by (induction w) (simp_all add: digit_char_0 replicate_append_same)


lemma div10_less: "(n::nat) < 10 ^ Suc w \<Longrightarrow> n div 10 < 10 ^ w"
proof -
  assume "n < 10 ^ Suc w"
  then have "n < 10 ^ w * 10" by simp
  then show ?thesis by (rule less_mult_imp_div_less)
qed

lemma div_mod_10_less:
  assumes ab: "(a::nat) < b"
  shows "a div 10 < b div 10 \<or> a div 10 = b div 10 \<and> a mod 10 < b mod 10"
proof (cases "a div 10 = b div 10")
  case True
  have "10 * (a div 10) + a mod 10 < 10 * (b div 10) + b mod 10"
    using ab by (simp only: mult_div_mod_eq)
  then have "a mod 10 < b mod 10"
    unfolding True by (simp only: nat_add_left_cancel_less)
  with True show ?thesis by blast
next
  case False
  have le: "a div 10 \<le> b div 10" using ab by (intro div_le_mono) (rule less_imp_le)
  from le_neq_implies_less [OF le False] show ?thesis by (rule disjI1)
qed

lemma fixed_digits_less:
  "a < b \<Longrightarrow> b < 10 ^ w \<Longrightarrow> fixed_digits w a < fixed_digits w b"
proof (induction w arbitrary: a b)
  case 0 then show ?case by simp
next
  case (Suc w)
  have len: "length (fixed_digits w (a div 10)) = length (fixed_digits w (b div 10))"
    by (simp add: length_fixed_digits)
  have bw: "b div 10 < 10 ^ w" using Suc.prems(2) by (rule div10_less)
  from div_mod_10_less [OF Suc.prems(1)] show ?case
  proof
    assume "a div 10 < b div 10"
    then have "fixed_digits w (a div 10) < fixed_digits w (b div 10)" using bw by (rule Suc.IH)
    then show ?thesis by (simp add: append_less_same_length [OF len])
  next
    assume "a div 10 = b div 10 \<and> a mod 10 < b mod 10"
    then show ?thesis by (simp add: digit_char_less append_less_same_length [OF refl])
  qed
qed


lemma length_str_nat_le: "0 < w \<Longrightarrow> n < 10 ^ w \<Longrightarrow> length (str_nat n) \<le> w"
proof (induction w arbitrary: n)
  case 0 then show ?case by simp
next
  case (Suc w)
  show ?case
  proof (cases "n < 10")
    case True then show ?thesis by (subst str_nat.simps) simp
  next
    case False
    with Suc.prems have w: "0 < w" by (cases w) auto
    have "n div 10 < 10 ^ w" using Suc.prems(2) by (rule div10_less)
    with w have "length (str_nat (n div 10)) \<le> w" by (rule Suc.IH)
    with False show ?thesis by (subst str_nat.simps) simp
  qed
qed

lemma pad_str_nat:
  "0 < w \<Longrightarrow> n < 10 ^ w \<Longrightarrow>
   replicate (w - length (str_nat n)) CHR ''0'' @ str_nat n = fixed_digits w n"
proof (induction w arbitrary: n)
  case 0 then show ?case by simp
next
  case (Suc w)
  show ?case
  proof (cases "n < 10")
    case True
    have s: "str_nat n = [digit_char n]" using True by (subst str_nat.simps) simp
    from True show ?thesis by (simp add: s fixed_digits_zero)
  next
    case False
    with Suc.prems have w: "0 < w" by (cases w) auto
    have nw: "n div 10 < 10 ^ w" using Suc.prems(2) by (rule div10_less)
    from w nw
    have ih: "replicate (w - length (str_nat (n div 10))) CHR ''0'' @ str_nat (n div 10)
            = fixed_digits w (n div 10)" by (rule Suc.IH)
    have s: "str_nat n = str_nat (n div 10) @ [digit_char (n mod 10)]"
      using False by (subst str_nat.simps) simp
    show ?thesis by (simp add: s ih [symmetric])
  qed
qed


lemma less_10_times: "(n::nat) div 10 < m \<Longrightarrow> n < 10 * m"
proof -
  assume "n div 10 < m"
  then have "n < m * 10" by (simp only: div_less_iff_less_mult [OF zero_less_numeral])
  then show ?thesis by (simp only: mult.commute)
qed

lemma str_nat_bound: "n < 10 ^ length (str_nat n)"
proof (induction n rule: str_nat.induct)
  case (1 n)
  show ?case
  proof (cases "n < 10")
    case True then show ?thesis by (subst str_nat.simps) simp
  next
    case False
    with 1 have "n div 10 < 10 ^ length (str_nat (n div 10))" by simp
    then have "n < 10 * 10 ^ length (str_nat (n div 10))" by (rule less_10_times)
    moreover have "str_nat n = str_nat (n div 10) @ [digit_char (n mod 10)]"
      using False by (subst str_nat.simps) simp
    ultimately show ?thesis by simp
  qed
qed

lemma str_nat_fixed: "fixed_digits (length (str_nat n)) n = str_nat n"
proof -
  have pos: "0 < length (str_nat n)" using str_nat_nonempty [of n] by simp
  have "replicate (length (str_nat n) - length (str_nat n)) CHR ''0'' @ str_nat n
          = fixed_digits (length (str_nat n)) n"
    using pos str_nat_bound by (rule pad_str_nat)
  then show ?thesis by (simp only: diff_self_eq_0 replicate.simps append_Nil)
qed

lemma str_nat_less_same_length:
  assumes lt: "a < b" and len: "length (str_nat a) = length (str_nat b)"
  shows "str_nat a < str_nat b"
proof -
  have "fixed_digits (length (str_nat b)) a < fixed_digits (length (str_nat b)) b"
    using lt str_nat_bound by (rule fixed_digits_less)
  moreover have "fixed_digits (length (str_nat b)) a = str_nat a"
    unfolding len [symmetric] by (rule str_nat_fixed)
  moreover have "fixed_digits (length (str_nat b)) b = str_nat b"
    by (rule str_nat_fixed)
  ultimately show ?thesis by (simp only:)
qed

lemma fmt_05d_fixed:
  assumes "0 \<le> i" "i \<le> 99999"
  shows "fmt_05d i = fixed_digits 5 (nat i)"
proof -
  from assms have b: "nat i < 10 ^ 5" by simp
  have p: "(0::nat) < 5" by simp
  from p b
  have "replicate (5 - length (str_nat (nat i))) CHR ''0'' @ str_nat (nat i) = fixed_digits 5 (nat i)"
    by (rule pad_str_nat)
  with assms(1) show ?thesis by (simp add: fmt_05d_def)
qed

lemma fmt_05d_less:
  assumes "0 \<le> i" "i < j" "j \<le> 99999"
  shows "fmt_05d i < fmt_05d j"
proof -
  from assms have "nat i < nat j" "nat j < 10 ^ 5" by simp_all
  then have "fixed_digits 5 (nat i) < fixed_digits 5 (nat j)" by (rule fixed_digits_less)
  with assms show ?thesis by (simp only: fmt_05d_fixed)
qed

lemma length_fmt_05d: "0 \<le> i \<Longrightarrow> i \<le> 99999 \<Longrightarrow> length (fmt_05d i) = 5"
  by (simp only: fmt_05d_fixed length_fixed_digits)


lemma fixed_digits_are_digits: "c \<in> set (fixed_digits w n) \<Longrightarrow> is_digit c"
  by (induction w arbitrary: n) (auto simp: is_digit_digit_char)

lemma fmt_05d_hd:
  assumes "0 \<le> i" "i \<le> 99999"
  shows "fmt_05d i \<noteq> [] \<and> hd (fmt_05d i) \<noteq> CHR ''/''"
proof -
  have l: "length (fmt_05d i) = 5" using assms by (rule length_fmt_05d)
  then have ne: "fmt_05d i \<noteq> []" by auto
  then have "hd (fmt_05d i) \<in> set (fixed_digits 5 (nat i))"
    using assms by (simp add: fmt_05d_fixed [symmetric])
  then have "is_digit (hd (fmt_05d i))" by (rule fixed_digits_are_digits)
  then have "hd (fmt_05d i) \<noteq> CHR ''/''" by (auto simp: is_digit_def)
  with ne show ?thesis by simp
qed

lemma path_join_snapshots:
  assumes "name \<noteq> []" "hd name \<noteq> CHR ''/''"
  shows "path_join folder [''IMG_SNAPSHOTS'', name]
           = path_join folder [''IMG_SNAPSHOTS''] @ ''/'' @ name"
  using assms by (simp add: path_join_def path_join2_def)

lemma frame_path_split:
  assumes "0 \<le> i" "i \<le> 99999"
  shows "frame_path folder i t raw
           = (path_join folder [''IMG_SNAPSHOTS''] @ ''/'') @ fmt_05d i @
             (CHR ''_'' # str_int t @ (if raw then ''_raw.jpg'' else ''.jpg''))"
proof -
  from fmt_05d_hd [OF assms] have a: "fmt_05d i \<noteq> []" and b: "hd (fmt_05d i) \<noteq> CHR ''/''"
    by simp_all
  have n: "\<And>r. fmt_05d i @ r \<noteq> [] \<and> hd (fmt_05d i @ r) \<noteq> CHR ''/''"
    using a b by simp
  show ?thesis
    using n [of "''_'' @ str_int t @ ''_raw.jpg''"] n [of "''_'' @ str_int t @ ''.jpg''"]
    by (simp add: frame_path_def file_name_raw_def file_name_def path_join_snapshots)
qed

lemma str_int_nonneg: "0 \<le> t \<Longrightarrow> str_int t = str_nat (nat t)"
  by (simp add: str_int_def)

lemma time_part_less:
  assumes "0 \<le> t1" "t1 < t2" "length (str_int t1) = length (str_int t2)"
  shows "CHR ''_'' # str_int t1 @ s1 < CHR ''_'' # str_int t2 @ s2"
proof -
  from assms have n: "str_int t1 = str_nat (nat t1)" "str_int t2 = str_nat (nat t2)"
    by (simp_all add: str_int_nonneg)
  from assms have lt: "nat t1 < nat t2" by simp
  from assms(3) have len: "length (str_nat (nat t1)) = length (str_nat (nat t2))"
    by (simp only: n)
  from lt len have "str_nat (nat t1) < str_nat (nat t2)" by (rule str_nat_less_same_length)
  then show ?thesis by (simp add: n append_less_same_length [OF len])
qed

text \<open>
  C7, amended. For two records whose ids lie in 0..99999: if the first has the smaller
  id, or the same id and a smaller non-negative time offset printed with as many digits
  as the other's, then its file name, raw or labeled, sorts strictly before the other's,
  raw or labeled, in the same snapshot directory. Only the id is zero-padded; for
  time offsets of different widths within one id the theorem says nothing.
\<close>

theorem frame_path_order:
  assumes before: "record_before (id1, t1) (id2, t2)"
      and range: "0 \<le> id1" "id2 \<le> 99999"
      and width: "id1 = id2 \<longrightarrow> 0 \<le> t1 \<and> length (str_int t1) = length (str_int t2)"
  shows "frame_path folder id1 t1 raw1 < frame_path folder id2 t2 raw2"
proof -
  from before have le: "id1 \<le> id2" by (auto simp: record_before_def)
  with range have r1: "0 \<le> id1" "id1 \<le> 99999" and r2: "0 \<le> id2" "id2 \<le> 99999" by simp_all
  have len: "length (fmt_05d id1) = length (fmt_05d id2)"
    by (simp only: length_fmt_05d [OF r1] length_fmt_05d [OF r2])
  have "fmt_05d id1 @ (CHR ''_'' # str_int t1 @ (if raw1 then ''_raw.jpg'' else ''.jpg''))
        < fmt_05d id2 @ (CHR ''_'' # str_int t2 @ (if raw2 then ''_raw.jpg'' else ''.jpg''))"
  proof (cases "id1 < id2")
    case True
    with r1(1) r2(2) have "fmt_05d id1 < fmt_05d id2" by (simp only: fmt_05d_less)
    then show ?thesis by (simp only: append_less_same_length [OF len] simp_thms)
  next
    case False
    with before have eq: "id1 = id2" and tlt: "t1 < t2" by (auto simp: record_before_def)
    with width have "0 \<le> t1" "length (str_int t1) = length (str_int t2)" by simp_all
    with tlt have "CHR ''_'' # str_int t1 @ (if raw1 then ''_raw.jpg'' else ''.jpg'')
        < CHR ''_'' # str_int t2 @ (if raw2 then ''_raw.jpg'' else ''.jpg'')"
      by (intro time_part_less)
    then show ?thesis by (simp only: eq append_less_same_length [OF refl] simp_thms)
  qed
  then show ?thesis
    by (simp only: frame_path_split [OF r1] frame_path_split [OF r2]
          append_less_same_length [OF refl] simp_thms)
qed

lemma digit_chars:
  "digit_char 0 = CHR ''0''" "digit_char 1 = CHR ''1''" "digit_char 2 = CHR ''2''"
  "digit_char 3 = CHR ''3''" "digit_char 4 = CHR ''4''" "digit_char 5 = CHR ''5''"
  "digit_char 6 = CHR ''6''" "digit_char 7 = CHR ''7''" "digit_char 8 = CHR ''8''"
  "digit_char 9 = CHR ''9''" "digit_char (Suc 0) = CHR ''1''"
  by code_simp+

lemma replicate_small:
  "replicate 1 c = [c]" "replicate 2 c = [c, c]" "replicate 3 c = [c, c, c]"
  "replicate 4 c = [c, c, c, c]"
  by (simp_all add: numeral_eq_Suc)

lemmas eval_names = file_name_def file_name_raw_def path_join_def path_join2_def fmt_05d_def
  str_int_def str_nat.simps digit_chars replicate_small

text \<open>
  C7, as stated, at the records \<open>(1, 9)\<close> and \<open>(1, 10)\<close>: the first is the earlier
  one, and its file name sorts after the other's, because the time offset is printed
  with \<^verbatim>\<open>%i\<close>, without padding. (An id beyond 99999 breaks the order of ids in the
  same way, and so does a negative id: \<open>frame_path_order_fails_wide_id\<close>,
  \<open>frame_path_order_fails_negative_id\<close>.)
\<close>

theorem frame_path_order_fails:
  "record_before (1, 9) (1, 10) \<and> file_name ''/data'' 1 10 < file_name ''/data'' 1 9"
  by (simp add: record_before_def eval_names)

theorem frame_path_order_witness:
  "frame_path ''/data'' 1 500 True < frame_path ''/data'' 2 100 False
   \<and> frame_path ''/data'' 2 100 False < frame_path ''/data'' 10 9999 False
   \<and> frame_path ''/data'' 10 1000 False < frame_path ''/data'' 10 9999 True"
proof -
  have l: "length (str_int 1000) = length (str_int 9999)"
    by (simp add: str_int_def str_nat.simps)
  show ?thesis
    using frame_path_order [of 1 500 2 100 "''/data''" True False]
      frame_path_order [of 2 100 10 9999 "''/data''" False False]
      frame_path_order [of 10 1000 10 9999 "''/data''" False True]
    by (simp add: record_before_def l)
qed

lemma frame_path_order_fails_wide_id:
  "record_before (99999, 0) (100000, 0) \<and> file_name ''/data'' 100000 0 < file_name ''/data'' 99999 0"
  by (simp add: record_before_def eval_names)

lemma frame_path_order_fails_negative_id:
  "record_before (- 2, 0) (- 1, 0) \<and> file_name ''/data'' (- 1) 0 < file_name ''/data'' (- 2) 0"
  by (simp add: record_before_def eval_names)

lemma spec_ordering_example:
  "file_name ''/data'' 1 500 = ''/data/IMG_SNAPSHOTS/00001_500.jpg''"
  "file_name ''/data'' 2 100 = ''/data/IMG_SNAPSHOTS/00002_100.jpg''"
  "file_name ''/data'' 10 9999 = ''/data/IMG_SNAPSHOTS/00010_9999.jpg''"
  by (simp_all add: eval_names)

section \<open>The output path and the parsed time\<close>

lemma replace_raw_skip:
  "CHR ''_'' \<notin> set s \<Longrightarrow> str_replace ''_raw'' [] (s @ r) = s @ str_replace ''_raw'' [] r"
  by (induction s) auto

lemma replace_raw_underscore:
  "c \<noteq> CHR ''r'' \<Longrightarrow>
   str_replace ''_raw'' [] (CHR ''_'' # c # r) = CHR ''_'' # str_replace ''_raw'' [] (c # r)"
  by simp

lemma no_underscore_str_nat: "CHR ''_'' \<notin> set (str_nat n)"
  using comma_not_in_str_nat [of "CHR ''_''" n] by (auto simp: is_digit_def)

lemma no_underscore_str_int: "CHR ''_'' \<notin> set (str_int t)"
  by (simp add: str_int_def no_underscore_str_nat)

lemma no_underscore_fmt_05d: "CHR ''_'' \<notin> set (fmt_05d i)"
  by (simp add: fmt_05d_def Let_def no_underscore_str_nat)

lemma str_int_Cons: "\<exists>c cs. str_int t = c # cs \<and> c \<noteq> CHR ''r''"
proof -
  have "\<exists>c cs. str_nat n = c # cs \<and> c \<noteq> CHR ''r''" for n
    using str_nat_hd_digit [of n] str_nat_nonempty [of n]
    by (cases "str_nat n") (auto simp: is_digit_def)
  then show ?thesis by (auto simp: str_int_def)
qed

lemma replace_raw_name:
  "str_replace ''_raw'' [] (fmt_05d i @ ''_'' @ str_int t @ ''_raw.jpg'')
     = fmt_05d i @ ''_'' @ str_int t @ ''.jpg''"
proof -
  obtain c cs where t: "str_int t = c # cs" and c: "c \<noteq> CHR ''r''"
    using str_int_Cons by blast
  have e: "str_replace ''_raw'' [] ''_raw.jpg'' = ''.jpg''" by simp
  have cs: "CHR ''_'' \<notin> set (c # cs)" using no_underscore_str_int [of t] by (simp add: t)
  have "str_replace ''_raw'' [] (fmt_05d i @ ''_'' @ str_int t @ ''_raw.jpg'')
          = fmt_05d i @ str_replace ''_raw'' [] (CHR ''_'' # c # (cs @ ''_raw.jpg''))"
    by (simp add: replace_raw_skip [OF no_underscore_fmt_05d] t del: str_replace.simps)
  also have "str_replace ''_raw'' [] (CHR ''_'' # c # (cs @ ''_raw.jpg''))
          = CHR ''_'' # str_replace ''_raw'' [] ((c # cs) @ ''_raw.jpg'')"
    using replace_raw_underscore [OF c, of "cs @ ''_raw.jpg''"] by (simp only: append_Cons)
  also have "str_replace ''_raw'' [] ((c # cs) @ ''_raw.jpg'') = (c # cs) @ ''.jpg''"
    by (simp only: replace_raw_skip [OF cs] e)
  finally show ?thesis by (simp add: t)
qed

lemma path_join2_snapshots:
  "path_join2 folder ''IMG_SNAPSHOTS''
     = (if folder = [] \<or> last folder = CHR ''/'' then folder else folder @ ''/'') @ ''IMG_SNAPSHOTS''"
  by (simp add: path_join2_def)

text \<open>
  The output path of \<^verbatim>\<open>annotate_image\<close> is computed by replacing \<^verbatim>\<open>_raw\<close> in the whole
  path. For a folder without an underscore it is the labeled name of \<^verbatim>\<open>save_frame\<close>;
  for a folder whose own name contains \<^verbatim>\<open>_raw\<close> it lies in another directory
  (\<open>replace_raw_other_folder\<close>).
\<close>

lemma replace_raw_file_name:
  assumes "CHR ''_'' \<notin> set folder"
  shows "str_replace ''_raw'' [] (file_name_raw folder i t) = file_name folder i t"
proof -
  let ?p = "(if folder = [] \<or> last folder = CHR ''/'' then folder else folder @ ''/'') @ ''IMG''"
  let ?q = "''SNAPSHOTS/'' @ fmt_05d i"
  have hd: "\<And>r. fmt_05d i @ r \<noteq> [] \<and> hd (fmt_05d i @ r) \<noteq> CHR ''/''"
  proof -
    fix r
    have "fmt_05d i \<noteq> []" by (simp add: fmt_05d_def Let_def str_nat_nonempty)
    moreover have "CHR ''/'' \<notin> set (fmt_05d i)"
      using comma_not_in_str_nat [of "CHR ''/''"]
      by (auto simp: fmt_05d_def Let_def is_digit_def)
    ultimately show "fmt_05d i @ r \<noteq> [] \<and> hd (fmt_05d i @ r) \<noteq> CHR ''/''"
      by (cases "fmt_05d i") auto
  qed
  have raw: "file_name_raw folder i t
        = ?p @ CHR ''_'' # CHR ''S'' # (''NAPSHOTS/'' @ fmt_05d i @ ''_'' @ str_int t @ ''_raw.jpg'')"
    using hd [of "''_'' @ str_int t @ ''_raw.jpg''"]
    by (simp add: file_name_raw_def path_join_def path_join2_def)
  have lab: "file_name folder i t
        = ?p @ CHR ''_'' # CHR ''S'' # (''NAPSHOTS/'' @ fmt_05d i @ ''_'' @ str_int t @ ''.jpg'')"
    using hd [of "''_'' @ str_int t @ ''.jpg''"]
    by (simp add: file_name_def path_join_def path_join2_def)
  have p: "CHR ''_'' \<notin> set ?p" using assms by simp
  have n: "CHR ''_'' \<notin> set ''SNAPSHOTS/''" by simp
  have "str_replace ''_raw'' [] (file_name_raw folder i t)
      = ?p @ str_replace ''_raw'' [] (CHR ''_'' # CHR ''S'' # (''NAPSHOTS/'' @ fmt_05d i @ ''_'' @ str_int t @ ''_raw.jpg''))"
    by (simp only: raw replace_raw_skip [OF p])
  also have "str_replace ''_raw'' [] (CHR ''_'' # CHR ''S'' # (''NAPSHOTS/'' @ fmt_05d i @ ''_'' @ str_int t @ ''_raw.jpg''))
      = CHR ''_'' # str_replace ''_raw'' [] (''SNAPSHOTS/'' @ (fmt_05d i @ ''_'' @ str_int t @ ''_raw.jpg''))"
    by (subst replace_raw_underscore) simp_all
  also have "str_replace ''_raw'' [] (''SNAPSHOTS/'' @ (fmt_05d i @ ''_'' @ str_int t @ ''_raw.jpg''))
      = ''SNAPSHOTS/'' @ str_replace ''_raw'' [] (fmt_05d i @ ''_'' @ str_int t @ ''_raw.jpg'')"
    by (rule replace_raw_skip [OF n])
  finally show ?thesis by (simp only: replace_raw_name lab) simp
qed

lemma replace_raw_other_folder:
  "str_replace ''_raw'' [] (file_name_raw ''/data_raw'' 3 2000) = ''/data/IMG_SNAPSHOTS/00003_2000.jpg''
   \<and> file_name ''/data_raw'' 3 2000 = ''/data_raw/IMG_SNAPSHOTS/00003_2000.jpg''"
  by (simp add: eval_names)

lemma takeWhile_stop:
  "\<forall>x\<in>set xs. P x \<Longrightarrow> \<not> P y \<Longrightarrow> takeWhile P (xs @ y # ys) = xs"
  by (induction xs) auto

lemma basename_append:
  assumes "CHR ''/'' \<notin> set name"
  shows "basename (pre @ CHR ''/'' # name) = name"
proof -
  from assms have "\<forall>x\<in>set (rev name). x \<noteq> CHR ''/''" by auto
  then have "takeWhile (\<lambda>c. c \<noteq> CHR ''/'') (rev name @ CHR ''/'' # rev pre) = rev name"
    by (rule takeWhile_stop) simp
  then show ?thesis by (simp add: basename_def)
qed

lemma no_slash_str_int: "CHR ''/'' \<notin> set (str_int t)"
  using comma_not_in_str_nat [of "CHR ''/''"] by (auto simp: str_int_def is_digit_def)

lemma no_slash_fmt_05d: "CHR ''/'' \<notin> set (fmt_05d i)"
  using comma_not_in_str_nat [of "CHR ''/''"] by (auto simp: fmt_05d_def Let_def is_digit_def)

lemma no_dot_str_int: "CHR ''.'' \<notin> set (str_int t)"
  using comma_not_in_str_nat [of "CHR ''.''"] by (auto simp: str_int_def is_digit_def)

lemma file_name_raw_shape:
  "\<exists>pre. file_name_raw folder i t
          = pre @ CHR ''/'' # (fmt_05d i @ CHR ''_'' # str_int t @ ''_raw.jpg'')"
proof -
  have "fmt_05d i \<noteq> []" by (simp add: fmt_05d_def Let_def str_nat_nonempty)
  with no_slash_fmt_05d [of i] have "hd (fmt_05d i) \<noteq> CHR ''/''" by (cases "fmt_05d i") auto
  with \<open>fmt_05d i \<noteq> []\<close> show ?thesis
    by (auto simp: file_name_raw_def path_join_def path_join2_def)
qed

text \<open>
  \<^verbatim>\<open>make_pool\<close> recovers the time offset of a frame from the raw name \<^verbatim>\<open>save_frame\<close>
  returned, in every folder.
\<close>

lemma frame_time_file_name_raw: "frame_time (file_name_raw folder i t) = Inr t"
proof -
  obtain pre where p: "file_name_raw folder i t
          = pre @ CHR ''/'' # (fmt_05d i @ CHR ''_'' # str_int t @ ''_raw.jpg'')"
    using file_name_raw_shape by blast
  have ns: "CHR ''/'' \<notin> set (fmt_05d i @ CHR ''_'' # str_int t @ ''_raw.jpg'')"
    by (simp add: no_slash_fmt_05d no_slash_str_int)
  have b: "basename (file_name_raw folder i t) = fmt_05d i @ CHR ''_'' # str_int t @ ''_raw.jpg''"
    by (simp only: p basename_append [OF ns])
  have s: "split_on CHR ''_'' (fmt_05d i @ CHR ''_'' # str_int t @ ''_raw.jpg'')
             = fmt_05d i # str_int t # split_on CHR ''_'' ''raw.jpg''"
    by (simp only: split_on_append_sep [OF no_underscore_fmt_05d]
          split_on_append_sep [OF no_underscore_str_int])
  have d: "split_on CHR ''.'' (str_int t) = [str_int t]"
    by (rule split_on_no_sep [OF no_dot_str_int])
  show ?thesis
    by (simp add: frame_time_def b s d int_of_str_str_int del: split_on.simps)
qed

end
